theory Spec2Isabelle
  imports Main "HOL-Library.Sublist"
begin

section \<open>The development server of kit: a shallow embedding\<close>

text \<open>
  The theory embeds \<^verbatim>\<open>packages/kit/src/exports/vite/dev/index.js\<close> (the function
  \<^verbatim>\<open>dev\<close> with its watchers, its two middlewares and \<^verbatim>\<open>has_correct_case\<close>) and
  \<^verbatim>\<open>default_environment.js\<close> (the source-map padding of the module runner).
  JavaScript strings are modelled as \<^typ>\<open>string\<close>; a thrown exception is a value of the
  result type; the mutable variables of the closure \<^verbatim>\<open>dev\<close> are the fields of one state
  record; everything the code does to its collaborators (the websocket, the console, the
  \<^verbatim>\<open>sync\<close> module, Vite) is appended to a log kept in that state.
\<close>

subsection \<open>Strings\<close>

definition startsWith :: "string \<Rightarrow> string \<Rightarrow> bool" where
  \<comment> \<open>\<^verbatim>\<open>s.startsWith(p)\<close>\<close>
  "startsWith s p = prefix p s"

subsection \<open>The patched global fetch (index.js, lines 38 to 47)\<close>

text \<open>
  The argument \<^verbatim>\<open>info\<close> of \<^verbatim>\<open>fetch\<close> is a string or something else (a \<^verbatim>\<open>Request\<close>, a
  \<^verbatim>\<open>URL\<close>). The regular expression \<^verbatim>\<open>SCHEME\<close> is imported from \<^verbatim>\<open>utils/url.js\<close>, which
  is not among the sources: its test is a parameter.
\<close>

datatype 'a fetch_info = StringInfo string | OtherInfo 'a

datatype ('a, 'i) fetch_outcome =
    Threw string  \<comment> \<open>\<^verbatim>\<open>throw new Error(message)\<close>; the original fetch is not called\<close>
  | Forwarded "'a fetch_info" 'i  \<comment> \<open>\<^verbatim>\<open>return fetch(info, init)\<close>, the original fetch\<close>

definition em_dash :: string where
  \<comment> \<open>the character U+2014 of the message, in UTF-8\<close>
  "em_dash = [CHR 0xE2, CHR 0x80, CHR 0x94]"

definition relative_url_message :: "string \<Rightarrow> string" where
  "relative_url_message info =
     ''Cannot use relative URL ('' @ info @ '') with global fetch '' @ em_dash @
     '' use `event.fetch` instead: https://kit.svelte.dev/docs/web-standards#fetch-apis''"

fun patched_fetch :: "(string \<Rightarrow> bool) \<Rightarrow> 'a fetch_info \<Rightarrow> 'i \<Rightarrow> ('a, 'i) fetch_outcome" where
  "patched_fetch SCHEME_test (StringInfo info) init =
     (if \<not> SCHEME_test info then Threw (relative_url_message info)
      else Forwarded (StringInfo info) init)"
| "patched_fetch SCHEME_test (OtherInfo x) init = Forwarded (OtherInfo x) init"

subsection \<open>The source-map padding (default_environment.js)\<close>

text \<open>
  \<^verbatim>\<open>asyncFunctionDeclarationPaddingLineCount\<close> is computed once from the text that the
  engine gives for \<^verbatim>\<open>new AsyncFunction('a', 'b', body).toString()\<close>. That text is the
  parameter \<open>source\<close>; \<open>dynamic_function_source\<close> is the text that ECMAScript's
  CreateDynamicFunction prescribes.
\<close>

fun indexOf_from :: "nat \<Rightarrow> string \<Rightarrow> string \<Rightarrow> int" where
  "indexOf_from i [] p = (if p = [] then int i else -1)"
| "indexOf_from i (c # cs) p =
     (if prefix p (c # cs) then int i else indexOf_from (Suc i) cs p)"

definition indexOf :: "string \<Rightarrow> string \<Rightarrow> int" where
  \<comment> \<open>\<^verbatim>\<open>s.indexOf(p)\<close>: the first position of \<open>p\<close> in \<open>s\<close>, or \<open>-1\<close>\<close>
  "indexOf s p = indexOf_from 0 s p"

definition slice0 :: "string \<Rightarrow> int \<Rightarrow> string" where
  \<comment> \<open>\<^verbatim>\<open>s.slice(0, e)\<close>: a negative end counts from the end of the string\<close>
  "slice0 s e = (if e < 0 then take (nat (int (length s) + e)) s else take (nat e) s)"

fun split_on :: "char \<Rightarrow> string \<Rightarrow> string \<Rightarrow> string list" where
  \<comment> \<open>\<^verbatim>\<open>s.split(c)\<close> for a separator of one character; \<open>cur\<close> is the piece being read\<close>
  "split_on sep cur [] = [cur]"
| "split_on sep cur (c # cs) =
     (if c = sep then cur # split_on sep [] cs else split_on sep (cur @ [c]) cs)"

definition newline :: char where
  "newline = CHR 0x0A"

definition padding_body :: string where
  "padding_body = ''/*code*/''"

definition asyncFunctionDeclarationPaddingLineCount :: "string \<Rightarrow> nat" where
  "asyncFunctionDeclarationPaddingLineCount source =
     length (split_on newline [] (slice0 source (indexOf source padding_body))) - 1"

definition dynamic_function_source :: "string list \<Rightarrow> string \<Rightarrow> string" where
  \<comment> \<open>CreateDynamicFunction, kind async: prefix, name, parameters, line feed, body\<close>
  "dynamic_function_source params body =
     ''async function anonymous('' @
     concat (case params of [] \<Rightarrow> [] | p # ps \<Rightarrow> p # map (\<lambda>q. '','' @ q) ps) @
     [newline] @ '') {'' @ [newline] @ body @ [newline] @ ''}''"

record 'x source_map =
  mappings :: string
  other_fields :: 'x  \<comment> \<open>the fields that \<^verbatim>\<open>Object.assign\<close> copies unchanged\<close>

definition processSourceMap :: "string \<Rightarrow> 'x source_map \<Rightarrow> 'x source_map" where
  \<comment> \<open>\<^verbatim>\<open>Object.assign({}, map, { mappings: ';'.repeat(n) + map.mappings })\<close>\<close>
  "processSourceMap source m =
     m\<lparr>mappings :=
        replicate (asyncFunctionDeclarationPaddingLineCount source) CHR '';'' @ mappings m\<rparr>"

subsection \<open>Paths (node:path, POSIX)\<close>

text \<open>
  \<^verbatim>\<open>path.basename\<close> drops the trailing slashes and returns what follows the last
  remaining slash; \<^verbatim>\<open>path.dirname\<close> scans the positions from the last down to 1, skips
  the trailing slashes and the last component, and cuts the path at the slash it finds.
\<close>

definition basename :: "string \<Rightarrow> string" where
  "basename path =
     rev (takeWhile (\<lambda>c. c \<noteq> CHR ''/'') (dropWhile (\<lambda>c. c = CHR ''/'') (rev path)))"

definition dirname_end :: "string \<Rightarrow> nat" where
  \<comment> \<open>the position \<^verbatim>\<open>end\<close> of the slash that ends the directory part; 0 when there is none\<close>
  "dirname_end path =
     length (dropWhile (\<lambda>c. c \<noteq> CHR ''/'')
       (dropWhile (\<lambda>c. c = CHR ''/'') (rev (tl path))))"

definition dirname :: "string \<Rightarrow> string" where
  "dirname path =
     (if path = [] then ''.''
      else if dirname_end path = 0 then (if hd path = CHR ''/'' then ''/'' else ''.'')
      else if hd path = CHR ''/'' \<and> dirname_end path = 1 then ''//''
      else take (dirname_end path) path)"

subsection \<open>String.prototype.replace with a global pattern of literal text\<close>

text \<open>
  Both patterns of \<^verbatim>\<open>error_template\<close> are literal texts without capture groups. The
  replacement is a string, so JavaScript expands in it \<^verbatim>\<open>$$\<close>, \<^verbatim>\<open>$&\<close>, the text before the
  match and the text after it; a dollar sign followed by anything else stays as it is.
\<close>

fun GetSubstitution :: "string \<Rightarrow> string \<Rightarrow> string \<Rightarrow> string \<Rightarrow> string" where
  "GetSubstitution matched before after [] = []"
| "GetSubstitution matched before after [c] = [c]"
| "GetSubstitution matched before after (c # d # r) =
     (if c = CHR ''$'' then
        (if d = CHR ''$'' then CHR ''$'' # GetSubstitution matched before after r
         else if d = CHR ''&'' then matched @ GetSubstitution matched before after r
         else if d = CHR 0x60 then before @ GetSubstitution matched before after r
         else if d = CHR 0x27 then after @ GetSubstitution matched before after r
         else c # GetSubstitution matched before after (d # r))
      else c # GetSubstitution matched before after (d # r))"

function replace_from :: "string \<Rightarrow> string \<Rightarrow> string \<Rightarrow> string \<Rightarrow> string" where
  "replace_from p r before [] = []"
| "replace_from p r before (c # cs) =
     (if p \<noteq> [] \<and> prefix p (c # cs)
      then GetSubstitution p before (drop (length p) (c # cs)) r @
           replace_from p r (before @ p) (drop (length p) (c # cs))
      else c # replace_from p r (before @ [c]) cs)"
  by pat_completeness auto
termination
  by (relation "measure (\<lambda>(p, r, before, s). length s)") auto

definition replace_all :: "string \<Rightarrow> string \<Rightarrow> string \<Rightarrow> string" where
  \<comment> \<open>\<^verbatim>\<open>s.replace(/p/g, r)\<close> for a literal, non-empty \<open>p\<close>\<close>
  "replace_all p r s = replace_from p r [] s"

fun String_of :: "nat \<Rightarrow> string" where
  \<comment> \<open>\<^verbatim>\<open>String(n)\<close> for a natural number\<close>
  "String_of n =
     (if n < 10 then [''0123456789'' ! n]
      else String_of (n div 10) @ [''0123456789'' ! (n mod 10)])"

definition status_placeholder :: string where
  "status_placeholder = ''%sveltekit.status%''"

definition message_placeholder :: string where
  "message_placeholder = ''%sveltekit.error.message%''"

definition error_template :: "string \<Rightarrow> nat \<Rightarrow> string \<Rightarrow> string" where
  "error_template error_page status msg =
     replace_all message_placeholder msg
       (replace_all status_placeholder (String_of status) error_page)"

subsection \<open>The state of the closure and its collaborators\<close>

record js_error =
  message :: "string option"  \<comment> \<open>\<^verbatim>\<open>error.message\<close>; \<open>None\<close> when it is null or undefined\<close>

record route_data =
  route_id :: string
  pattern :: "string \<Rightarrow> bool"  \<comment> \<open>whether \<^verbatim>\<open>route.pattern.exec(s)\<close> finds a match\<close>
  environment :: "string option"  \<comment> \<open>\<^verbatim>\<open>route.environment\<close>, \<open>None\<close> when null or undefined\<close>

record ManifestData =
  routes :: "route_data list"

datatype ws_message = FullReload | ErrorOverlay string

datatype action =
    SyncCreate  \<comment> \<open>\<^verbatim>\<open>sync.create(svelte_config)\<close>\<close>
  | InvalidateModule string  \<comment> \<open>the context module of the named environment\<close>
  | WsSend ws_message  \<comment> \<open>\<^verbatim>\<open>vite.ws.send\<close>\<close>
  | ConsoleError "string option"
  | ConsoleLog string
  | SyncUpdate "ManifestData option" string  \<comment> \<open>\<^verbatim>\<open>sync.update(svelte_config, manifest_data, file)\<close>\<close>
  | SyncServer  \<comment> \<open>\<^verbatim>\<open>sync.server(svelte_config)\<close>\<close>
  | ViteRestart  \<comment> \<open>\<^verbatim>\<open>vite.restart()\<close>\<close>

text \<open>
  The variables \<^verbatim>\<open>manifest_data\<close> (undefined until the first successful build),
  \<^verbatim>\<open>manifest_error\<close>, \<^verbatim>\<open>timeout\<close> and \<^verbatim>\<open>restarting\<close>, with the timers of the runtime
  (handle and due time, in milliseconds), the clock and the log of what was done when.
\<close>

record dev_state =
  manifest_data :: "ManifestData option"
  manifest_error :: "js_error option"
  timeout :: "nat option"
  restarting :: bool
  timers :: "(nat \<times> nat) list"
  next_handle :: nat
  now :: nat
  trace :: "(nat \<times> action) list"

record kit_config =
  files_routes :: string
  files_params :: string
  files_hooks_client :: string
  files_hooks_server :: string
  files_appTemplate :: string
  files_errorTemplate :: string
  files_serviceWorker :: string
  files_assets :: string
  paths_base :: string
  paths_assets :: string
  SVELTE_KIT_ASSETS :: string  \<comment> \<open>the constant of \<^verbatim>\<open>constants.js\<close>\<close>

text \<open>
  What \<^verbatim>\<open>sync.create\<close> does when it is called at a given time (it throws or returns the
  manifest), and the environments of Vite with whether their module graph holds the
  context module.
\<close>

record world =
  sync_create :: "nat \<Rightarrow> js_error + ManifestData"
  vite_environments :: "(string \<times> bool) list"

definition emit :: "action \<Rightarrow> dev_state \<Rightarrow> dev_state" where
  "emit a s = s\<lparr>trace := trace s @ [(now s, a)]\<rparr>"

definition initial_state :: dev_state where
  "initial_state =
     \<lparr>manifest_data = None, manifest_error = None, timeout = None, restarting = False,
      timers = [], next_handle = 0, now = 0, trace = []\<rparr>"

subsection \<open>update_manifest (index.js, lines 57 to 90)\<close>

text \<open>
  The loop over \<^verbatim>\<open>vite.environments\<close> invalidates the context module where the module graph
  has it; the calls on the module graph, the console and the websocket are taken to
  return.
\<close>

definition invalidate_context :: "(string \<times> bool) list \<Rightarrow> dev_state \<Rightarrow> dev_state" where
  "invalidate_context envs s =
     foldl (\<lambda>st (name, has_module). if has_module then emit (InvalidateModule name) st else st)
       s envs"

definition update_manifest :: "world \<Rightarrow> dev_state \<Rightarrow> dev_state" where
  "update_manifest w s =
     (case sync_create w (now s) of
        Inr created \<Rightarrow>
          (let s1 = (emit SyncCreate s)\<lparr>manifest_data := Some created\<rparr>;
               s2 = invalidate_context (vite_environments w) s1
           in case manifest_error s2 of
                Some e \<Rightarrow> emit (WsSend FullReload) (s2\<lparr>manifest_error := None\<rparr>)
              | None \<Rightarrow> s2)
      | Inl error \<Rightarrow>
          (let s1 = (emit SyncCreate s)\<lparr>manifest_error := Some error\<rparr>;
               s2 = emit (ConsoleError (message error)) s1
           in emit (WsSend (ErrorOverlay
                (case message error of Some m \<Rightarrow> m | None \<Rightarrow> ''Invalid routes''))) s2))"

subsection \<open>The watchers and the debounce timer (index.js, lines 100 to 175)\<close>

definition path_sep :: string where
  "path_sep = ''/''"

definition watched :: "kit_config \<Rightarrow> string \<Rightarrow> bool" where
  \<comment> \<open>the condition of \<^verbatim>\<open>watch\<close>\<close>
  "watched cfg file \<longleftrightarrow>
     startsWith file (files_routes cfg @ path_sep) \<or>
     startsWith file (files_params cfg @ path_sep) \<or>
     startsWith file (files_hooks_client cfg)"

definition clearTimeout :: "nat \<Rightarrow> dev_state \<Rightarrow> dev_state" where
  "clearTimeout h s = s\<lparr>timers := filter (\<lambda>t. fst t \<noteq> h) (timers s)\<rparr>"

definition setTimeout :: "nat \<Rightarrow> dev_state \<Rightarrow> nat \<times> dev_state" where
  \<comment> \<open>a fresh handle, and the timer due after the delay\<close>
  "setTimeout delay s =
     (next_handle s,
      s\<lparr>timers := timers s @ [(next_handle s, now s + delay)],
        next_handle := Suc (next_handle s)\<rparr>)"

definition debounce :: "dev_state \<Rightarrow> dev_state" where
  \<comment> \<open>\<^verbatim>\<open>debounce(update_manifest)\<close>: the only function that is ever debounced\<close>
  "debounce s =
     (let s1 = (case timeout s of Some h \<Rightarrow> clearTimeout h s | None \<Rightarrow> s);
          (h, s2) = setTimeout 100 s1
      in s2\<lparr>timeout := Some h\<rparr>)"

definition timer_callback :: "world \<Rightarrow> dev_state \<Rightarrow> dev_state" where
  \<comment> \<open>\<^verbatim>\<open>() => { timeout = null; to_run(); }\<close>\<close>
  "timer_callback w s = update_manifest w (s\<lparr>timeout := None\<rparr>)"

definition on_add :: "kit_config \<Rightarrow> string \<Rightarrow> dev_state \<Rightarrow> dev_state" where
  "on_add cfg file s = (if watched cfg file then debounce s else s)"

definition on_unlink :: "kit_config \<Rightarrow> string \<Rightarrow> dev_state \<Rightarrow> dev_state" where
  "on_unlink cfg file s = (if watched cfg file then debounce s else s)"

definition on_change :: "kit_config \<Rightarrow> string \<Rightarrow> dev_state \<Rightarrow> dev_state" where
  "on_change cfg file s =
     (if watched cfg file then
        (if timeout s \<noteq> None \<or> restarting s then s
         else emit (SyncUpdate (manifest_data s) file) s)
      else s)"

definition on_change_appTemplate :: "kit_config \<Rightarrow> string \<Rightarrow> dev_state \<Rightarrow> dev_state" where
  \<comment> \<open>registered only when the template is not \<^verbatim>\<open>index.html\<close>\<close>
  "on_change_appTemplate cfg file s =
     (if files_appTemplate cfg \<noteq> ''index.html'' \<and> file = files_appTemplate cfg \<and> \<not> restarting s
      then emit (WsSend FullReload) s else s)"

definition on_all :: "kit_config \<Rightarrow> string \<Rightarrow> dev_state \<Rightarrow> dev_state" where
  "on_all cfg file s =
     (if file = files_appTemplate cfg \<or> file = files_errorTemplate cfg \<or>
         startsWith file (files_serviceWorker cfg) \<or> startsWith file (files_hooks_server cfg)
      then emit SyncServer s else s)"

definition on_change_config :: "string \<Rightarrow> dev_state \<Rightarrow> dev_state" where
  "on_change_config file s =
     (if basename file = ''svelte.config.js''
      then emit ViteRestart
             ((emit (ConsoleLog (''svelte config changed, restarting vite dev-server. changed file: ''
                  @ file)) s)\<lparr>restarting := True\<rparr>)
      else s)"

datatype event = Add | AddDir | Change | Unlink | UnlinkDir

text \<open>
  The watcher calls the listeners of the event in the order of their registration, then
  those of \<^verbatim>\<open>all\<close>.
\<close>

fun watcher_emit :: "kit_config \<Rightarrow> event \<Rightarrow> string \<Rightarrow> dev_state \<Rightarrow> dev_state" where
  "watcher_emit cfg Add file s = on_all cfg file (on_add cfg file s)"
| "watcher_emit cfg Unlink file s = on_all cfg file (on_unlink cfg file s)"
| "watcher_emit cfg Change file s =
     on_all cfg file
       (on_change_config file (on_change_appTemplate cfg file (on_change cfg file s)))"
| "watcher_emit cfg AddDir file s = on_all cfg file s"
| "watcher_emit cfg UnlinkDir file s = on_all cfg file s"

text \<open>
  The event loop: the timers that are due at a time run in the order of their due times,
  each at its due time; an event of the watcher is handled at its own time, after the
  timers that were due by then.
\<close>

fun earliest :: "(nat \<times> nat) list \<Rightarrow> (nat \<times> nat) option" where
  "earliest [] = None"
| "earliest (t # ts) =
     (case earliest ts of
        None \<Rightarrow> Some t
      | Some u \<Rightarrow> if snd t \<le> snd u then Some t else Some u)"

definition next_due :: "nat \<Rightarrow> (nat \<times> nat) list \<Rightarrow> (nat \<times> nat) option" where
  "next_due T ts = earliest (filter (\<lambda>t. snd t \<le> T) ts)"

lemma earliest_mem: "earliest ts = Some t \<Longrightarrow> t \<in> set ts"
  by (induction ts arbitrary: t) (auto split: option.splits if_splits)

lemma timers_timer_callback: "timers (timer_callback w s) = timers s"
proof -
  have inv: "timers (invalidate_context envs st) = timers st" for envs st
    unfolding invalidate_context_def
    by (induction envs arbitrary: st) (auto simp: emit_def)
  show ?thesis
    unfolding timer_callback_def update_manifest_def
    by (auto simp: emit_def inv Let_def split: sum.splits option.splits)
qed

function run_timers :: "world \<Rightarrow> nat \<Rightarrow> dev_state \<Rightarrow> dev_state" where
  "run_timers w T s =
     (case next_due T (timers s) of
        None \<Rightarrow> s\<lparr>now := max (now s) T\<rparr>
      | Some t \<Rightarrow>
          run_timers w T
            (timer_callback w (s\<lparr>timers := remove1 t (timers s), now := max (now s) (snd t)\<rparr>)))"
  by pat_completeness auto
termination
proof (relation "measure (\<lambda>(w, T, s). length (timers s))")
  show "wf (measure (\<lambda>(w, T, s). length (timers s)))" by simp
next
  fix w :: world and T :: nat and s :: dev_state and t :: "nat \<times> nat"
  assume "next_due T (timers s) = Some t"
  then have "t \<in> set (timers s)"
    unfolding next_due_def using earliest_mem by fastforce
  then have "length (remove1 t (timers s)) < length (timers s)"
    by (simp add: length_remove1) (cases "timers s"; simp)
  then show "((w, T, timer_callback w (s\<lparr>timers := remove1 t (timers s), now := max (now s) (snd t)\<rparr>)),
              (w, T, s)) \<in> measure (\<lambda>(w, T, s). length (timers s))"
    by (simp add: timers_timer_callback)
qed

declare run_timers.simps [simp del]

fun run_events ::
  "kit_config \<Rightarrow> world \<Rightarrow> (nat \<times> event \<times> string) list \<Rightarrow> dev_state \<Rightarrow> dev_state" where
  "run_events cfg w [] s = s"
| "run_events cfg w ((t, kind, file) # es) s =
     run_events cfg w es (watcher_emit cfg kind file (run_timers w t s))"

definition rebuild_times :: "dev_state \<Rightarrow> nat list" where
  \<comment> \<open>the times at which \<^verbatim>\<open>update_manifest\<close> ran: it calls \<^verbatim>\<open>sync.create\<close> first\<close>
  "rebuild_times s = map fst (filter (\<lambda>e. snd e = SyncCreate) (trace s))"

subsection \<open>What the log and the timers show\<close>

definition updated_files :: "dev_state \<Rightarrow> string list" where
  "updated_files s =
     concat (map (\<lambda>e. case snd e of SyncUpdate m f \<Rightarrow> [f] | _ \<Rightarrow> []) (trace s))"

definition armed :: "dev_state \<Rightarrow> nat \<Rightarrow> bool" where
  \<comment> \<open>one timer, due at \<open>d\<close>, and \<^verbatim>\<open>timeout\<close> holds its handle\<close>
  "armed s d \<longleftrightarrow> (case timeout s of Some h \<Rightarrow> timers s = [(h, d)] | None \<Rightarrow> False)"

definition idle :: "dev_state \<Rightarrow> bool" where
  \<comment> \<open>no timer, and \<^verbatim>\<open>timeout\<close> is null\<close>
  "idle s \<longleftrightarrow> timeout s = None \<and> timers s = []"

definition timer_ok :: "dev_state \<Rightarrow> bool" where
  \<comment> \<open>what holds of the timer in every state that the server reaches\<close>
  "timer_ok s \<longleftrightarrow> idle s \<or> (\<exists>d. armed s d)"

text \<open>
  A burst: add and unlink events on watched files, in the order of their times, each less
  than 100 ms after the one before.
\<close>

fun add_unlink_burst :: "kit_config \<Rightarrow> (nat \<times> event \<times> string) list \<Rightarrow> bool" where
  "add_unlink_burst cfg [] = True"
| "add_unlink_burst cfg [(t, kind, file)] = ((kind = Add \<or> kind = Unlink) \<and> watched cfg file)"
| "add_unlink_burst cfg ((t, kind, file) # (t', e) # es) =
     ((kind = Add \<or> kind = Unlink) \<and> watched cfg file \<and> t \<le> t' \<and> t' < t + 100 \<and>
      add_unlink_burst cfg ((t', e) # es))"

definition ws_sent :: "dev_state \<Rightarrow> ws_message list" where
  "ws_sent s = concat (map (\<lambda>e. case snd e of WsSend m \<Rightarrow> [m] | _ \<Rightarrow> []) (trace s))"

definition example_config :: kit_config where
  "example_config =
     \<lparr>files_routes = ''/app/src/routes'', files_params = ''/app/src/params'',
      files_hooks_client = ''/app/src/hooks.client'',
      files_hooks_server = ''/app/src/hooks.server'',
      files_appTemplate = ''/app/src/app.html'', files_errorTemplate = ''/app/src/error.html'',
      files_serviceWorker = ''/app/src/service-worker'', files_assets = ''/app/static'',
      paths_base = [], paths_assets = [], SVELTE_KIT_ASSETS = ''/_svelte_kit_assets''\<rparr>"

definition example_manifest :: ManifestData where
  "example_manifest =
     \<lparr>routes =
        [\<lparr>route_id = ''/a/static'', pattern = (\<lambda>u. u = ''/a/static''), environment = Some ''edge''\<rparr>,
         \<lparr>route_id = ''/a/[id]'', pattern = (\<lambda>u. prefix ''/a/'' u \<and> CHR ''/'' \<notin> set (drop 3 u)),
            environment = None\<rparr>]\<rparr>"

definition example_world :: world where
  "example_world =
     \<lparr>sync_create = (\<lambda>t. if t < 1000 then Inr example_manifest
                          else Inl \<lparr>message = Some ''routes conflict''\<rparr>),
      vite_environments = [(''client'', False), (''ssr'', True)]\<rparr>"

definition example_burst :: "(nat \<times> event \<times> string) list" where
  "example_burst =
     [(10, Add, ''/app/src/routes/a/+page.svelte''),
      (60, Unlink, ''/app/src/routes/b/+page.svelte''),
      (150, Add, ''/app/src/params/slug.js'')]"

subsection \<open>The file system and has_correct_case (index.js, lines 379 to 398)\<close>

text \<open>
  A snapshot of the file system: what a path names, if anything. On a file system that
  ignores case two spellings name the same file, while the listing of the directory holds
  one of them. \<^verbatim>\<open>readdirSync\<close> throws (\<open>None\<close>) on what is not a directory, and a
  listing never holds an empty name, \<^verbatim>\<open>.\<close> or \<^verbatim>\<open>..\<close>.
\<close>

datatype fs_node = File | Directory "string list"

type_synonym filesystem = "string \<Rightarrow> fs_node option"

definition existsSync :: "filesystem \<Rightarrow> string \<Rightarrow> bool" where
  "existsSync fs p \<longleftrightarrow> fs p \<noteq> None"

definition isDirectory :: "filesystem \<Rightarrow> string \<Rightarrow> bool" where
  "isDirectory fs p \<longleftrightarrow> (case fs p of Some (Directory names) \<Rightarrow> True | _ \<Rightarrow> False)"

definition readdirSync :: "filesystem \<Rightarrow> string \<Rightarrow> string list option" where
  "readdirSync fs p =
     (case fs p of
        Some (Directory names) \<Rightarrow> Some (filter (\<lambda>n. n \<noteq> [] \<and> n \<noteq> ''.'' \<and> n \<noteq> ''..'') names)
      | _ \<Rightarrow> None)"

definition path_measure :: "string \<Rightarrow> nat" where
  "path_measure p = 2 * length p + (if p = ''.'' then 0 else 1)"

lemma length_dropWhile_le2:
  assumes "dropWhile (\<lambda>c. c \<noteq> x) (dropWhile (\<lambda>c. c = x) r) \<noteq> []"
  shows "Suc (length (dropWhile (\<lambda>c. c \<noteq> x) (dropWhile (\<lambda>c. c = x) r))) \<le> length r"
proof -
  define r1 where "r1 = dropWhile (\<lambda>c. c = x) r"
  have ne: "r1 \<noteq> []"
  proof
    assume "r1 = []"
    then have "dropWhile (\<lambda>c. c \<noteq> x) (dropWhile (\<lambda>c. c = x) r) = []"
      unfolding r1_def by (simp only: dropWhile.simps)
    then show False using assms by blast
  qed
  then obtain a r2 where r1: "r1 = a # r2" by (cases r1) auto
  have "hd r1 \<noteq> x" using hd_dropWhile [of "\<lambda>c. c = x" r] ne unfolding r1_def by blast
  then have "a \<noteq> x" using r1 by simp
  then have "dropWhile (\<lambda>c. c \<noteq> x) r1 = dropWhile (\<lambda>c. c \<noteq> x) r2"
    using r1 by simp
  moreover have "length (dropWhile (\<lambda>c. c \<noteq> x) r2) \<le> length r2"
    by (rule length_dropWhile_le)
  moreover have "length r1 \<le> length r" unfolding r1_def by (rule length_dropWhile_le)
  ultimately show ?thesis using r1 unfolding r1_def by simp
qed

lemma dirname_end_bound: "dirname_end p \<noteq> 0 \<Longrightarrow> dirname_end p + 2 \<le> length p"
  unfolding dirname_end_def
  using length_dropWhile_le2 [of "CHR ''/''" "rev (tl p)"] by (cases p) auto

lemma basename_single: "basename [c] = (if c = CHR ''/'' then [] else [c])"
  by (simp add: basename_def)

lemma dirname_measure:
  assumes "basename p \<noteq> []" and "basename p \<noteq> ''.''"
  shows "path_measure (dirname p) < path_measure p"
proof (cases "dirname_end p = 0")
  case True
  have ne: "p \<noteq> []" using assms by (auto simp: basename_def)
  have d: "dirname p = (if hd p = CHR ''/'' then ''/'' else ''.'')"
    using True ne by (simp add: dirname_def)
  show ?thesis
  proof (cases "length p = 1")
    case True
    then obtain c where p: "p = [c]" by (cases p) auto
    then have "c \<noteq> CHR ''/''" "c \<noteq> CHR ''.''"
      using assms by (auto simp: basename_single split: if_splits)
    then show ?thesis using d p by (simp add: path_measure_def)
  next
    case False
    then have "2 \<le> length p" using ne by (cases p; cases "tl p") auto
    moreover have "length (dirname p) = 1" using d by simp
    ultimately show ?thesis by (auto simp: path_measure_def)
  qed
next
  case False
  then have le: "dirname_end p + 2 \<le> length p" by (rule dirname_end_bound)
  have "dirname p = ''//'' \<and> dirname_end p = 1 \<or> dirname p = take (dirname_end p) p"
    using False le by (auto simp: dirname_def)
  then have "length (dirname p) + 1 \<le> length p"
    using le by auto
  then show ?thesis by (auto simp: path_measure_def)
qed

function has_correct_case :: "filesystem \<Rightarrow> string \<Rightarrow> string \<Rightarrow> bool option" where
  "has_correct_case fs file assets =
     (if file = assets then Some True
      else
        (case readdirSync fs (dirname file) of
           None \<Rightarrow> None
         | Some names \<Rightarrow>
             if basename file \<in> set names then has_correct_case fs (dirname file) assets
             else Some False))"
  by pat_completeness auto
termination
proof (relation "measure (\<lambda>(fs, file, assets). path_measure file)")
  show "wf (measure (\<lambda>(fs, file, assets). path_measure file))" by simp
next
  fix fs :: filesystem and f assets :: string and names :: "string list"
  assume "readdirSync fs (dirname f) = Some names" and "basename f \<in> set names"
  then have "basename f \<noteq> [] \<and> basename f \<noteq> ''.''"
    by (auto simp: readdirSync_def split: option.splits fs_node.splits)
  then show "((fs, dirname f, assets), (fs, f, assets))
      \<in> measure (\<lambda>(fs, file, assets). path_measure file)"
    using dirname_measure by simp
qed

declare has_correct_case.simps [simp del]

inductive exact_case_walk :: "filesystem \<Rightarrow> string \<Rightarrow> string \<Rightarrow> bool" for fs assets where
  at_root: "exact_case_walk fs assets assets"
| listed: "readdirSync fs (dirname file) = Some names \<Longrightarrow> basename file \<in> set names \<Longrightarrow>
     exact_case_walk fs assets (dirname file) \<Longrightarrow> exact_case_walk fs assets file"

subsection \<open>The asset middleware (index.js, lines 214 to 241)\<close>

definition assets_prefix :: "kit_config \<Rightarrow> string" where
  \<comment> \<open>the constant \<^verbatim>\<open>assets\<close> of line 177\<close>
  "assets_prefix cfg = (if paths_assets cfg \<noteq> [] then SVELTE_KIT_ASSETS cfg else paths_base cfg)"

datatype asset_result =
    AssetServer string  \<comment> \<open>\<^verbatim>\<open>asset_server(req, res)\<close> with \<^verbatim>\<open>req.url\<close> set from this pathname\<close>
  | Next  \<comment> \<open>\<^verbatim>\<open>next()\<close>\<close>
  | AssetError  \<comment> \<open>the catch clause: status 500 with the stack\<close>

definition asset_middleware :: "kit_config \<Rightarrow> filesystem \<Rightarrow> string option \<Rightarrow> asset_result" where
  \<comment> \<open>the argument is \<^verbatim>\<open>decoded\<close>, or \<open>None\<close> when computing it throws\<close>
  "asset_middleware cfg fs decoded =
     (case decoded of
        None \<Rightarrow> AssetError
      | Some d \<Rightarrow>
          if startsWith d (assets_prefix cfg) then
            (let pathname = drop (length (assets_prefix cfg)) d;
                 file = files_assets cfg @ pathname
             in if existsSync fs file \<and> \<not> isDirectory fs file then
                  (case has_correct_case fs file (files_assets cfg) of
                     None \<Rightarrow> AssetError
                   | Some True \<Rightarrow> AssetServer pathname
                   | Some False \<Rightarrow> Next)
                else Next)
          else Next)"

definition example_fs :: filesystem where
  "example_fs = map_of
     [(''/'', Directory [''app'']),
      (''/app'', Directory [''static'', ''src'']),
      (''/app/static'', Directory [''Logo.png'', ''img'']),
      (''/app/static/'', Directory [''Logo.png'', ''img'']),
      (''/app/static/img'', Directory [''a.png'']),
      (''/app/static/Logo.png'', File),
      (''/app/static/logo.png'', File),
      (''/app/static//Logo.png'', File),
      (''/app/static/img/a.png'', File)]"

subsection \<open>The request handler (index.js, lines 265 to 362)\<close>

text \<open>
  What the handler reads from a request: \<^verbatim>\<open>req.originalUrl\<close>, which it puts back into
  \<^verbatim>\<open>req.url\<close>; the \<^verbatim>\<open>req.url\<close> that Vite left, without the base; and \<^verbatim>\<open>decoded\<close>, the
  decoded pathname of the original URL as the platform computes it (\<open>None\<close> when
  \<^verbatim>\<open>new URL\<close> or \<^verbatim>\<open>decodeURI\<close> throws).
\<close>

record request =
  url :: string
  stripped_url :: string
  decoded :: "string option"

record response =
  status :: nat
  body :: string

datatype handled =
    StaticFile string  \<comment> \<open>Vite's static middleware answered, for this \<^verbatim>\<open>req.url\<close>\<close>
  | NotFound string  \<comment> \<open>\<^verbatim>\<open>not_found(req, res, base)\<close>\<close>
  | ServiceWorker nat string  \<comment> \<open>\<^verbatim>\<open>writeHead\<close> with this status, \<^verbatim>\<open>end\<close> with this body\<close>
  | ErrorPage nat string  \<comment> \<open>\<^verbatim>\<open>writeHead(status, html)\<close>, \<^verbatim>\<open>end(error_template(...))\<close>\<close>
  | SetResponse response  \<comment> \<open>\<^verbatim>\<open>setResponse(res, rendered)\<close>\<close>
  | Status500  \<comment> \<open>the catch clause: status 500 with the stack\<close>

text \<open>
  The collaborators of the handler: \<^verbatim>\<open>posixify(path.resolve(p))\<close>, the file system, Vite's
  \<^verbatim>\<open>server.fs\<close> options, \<^verbatim>\<open>resolve_entry\<close> and \<^verbatim>\<open>to_fs\<close>, the text of the error page,
  the environments by name (\<open>None\<close>: no such environment) with their \<^verbatim>\<open>dispatchFetch\<close>
  (\<open>None\<close>: it throws), and whether Vite's static middleware answers a URL or calls
  \<^verbatim>\<open>next\<close>.
\<close>

record router_world =
  resolve_file :: "string \<Rightarrow> string"
  file_system :: filesystem
  fs_strict :: bool
  fs_allow :: "string list"
  resolve_entry :: "string \<Rightarrow> string option"
  to_fs :: "string \<Rightarrow> string"
  load_error_page :: string
  environments :: "string \<Rightarrow> (request \<Rightarrow> response option) option"
  serve_static :: "string \<Rightarrow> bool"

definition message_or_default :: "js_error \<Rightarrow> string" where
  \<comment> \<open>\<^verbatim>\<open>manifest_error.message ?? 'Invalid routes'\<close>\<close>
  "message_or_default e = (case message e of Some m \<Rightarrow> m | None \<Rightarrow> ''Invalid routes'')"

definition find_route :: "ManifestData \<Rightarrow> string \<Rightarrow> route_data option" where
  \<comment> \<open>\<^verbatim>\<open>manifest_data.routes.find((route) => route.pattern.exec(req.url))\<close>\<close>
  "find_route md u = List.find (\<lambda>route. pattern route u) (routes md)"

definition environment_name :: "route_data option \<Rightarrow> string" where
  \<comment> \<open>\<^verbatim>\<open>route?.environment ?? 'ssr'\<close>\<close>
  "environment_name route =
     (case route of
        None \<Rightarrow> ''ssr''
      | Some r \<Rightarrow> (case environment r of None \<Rightarrow> ''ssr'' | Some name \<Rightarrow> name))"

text \<open>
  The second component of a result lists the environments whose \<^verbatim>\<open>dispatchFetch\<close> was
  called.
\<close>

definition dispatch_route ::
  "router_world \<Rightarrow> ManifestData \<Rightarrow> request \<Rightarrow> handled \<times> string list" where
  "dispatch_route rw md req =
     (let route = find_route md (url req);
          name = environment_name route
      in case environments rw name of
           None \<Rightarrow> (Status500, [])
         | Some dispatchFetch \<Rightarrow>
             (case dispatchFetch req of
                None \<Rightarrow> (Status500, [name])
              | Some rendered \<Rightarrow>
                  if status rendered = 404 then
                    (if serve_static rw (url req) then (StaticFile (url req), [name])
                     else (SetResponse rendered, [name]))
                  else (SetResponse rendered, [name])))"

definition is_static_file :: "kit_config \<Rightarrow> router_world \<Rightarrow> string \<Rightarrow> bool" where
  \<comment> \<open>\<^verbatim>\<open>is_file && allowed\<close>\<close>
  "is_static_file cfg rw d =
     (let file = resolve_file rw (drop (length (paths_base cfg) + 1) d);
          is_file = existsSync (file_system rw) file \<and> \<not> isDirectory (file_system rw) file;
          allowed = \<not> fs_strict rw \<or> list_ex (\<lambda>dir. startsWith file dir) (fs_allow rw)
      in is_file \<and> allowed)"

text \<open>
  The handler proper, in the order of the source. \<^verbatim>\<open>getRequest\<close> and \<^verbatim>\<open>load_error_page\<close>
  are taken to return, and Vite's static middleware to be installed. Reading
  \<^verbatim>\<open>manifest_data.routes\<close> while the manifest is still undefined throws.
\<close>

definition handle_request ::
  "kit_config \<Rightarrow> router_world \<Rightarrow> dev_state \<Rightarrow> request \<Rightarrow> handled \<times> string list" where
  "handle_request cfg rw s req =
     (case decoded req of
        None \<Rightarrow> (Status500, [])
      | Some d \<Rightarrow>
          if is_static_file cfg rw d then (StaticFile (stripped_url req), [])
          else if \<not> startsWith d (paths_base cfg) then (NotFound (paths_base cfg), [])
          else if d = paths_base cfg @ ''/service-worker.js'' then
            (case resolve_entry rw (files_serviceWorker cfg) of
               Some resolved \<Rightarrow>
                 (ServiceWorker 200 (''import '' @ [CHR 0x27] @ to_fs rw resolved @ [CHR 0x27] @ '';''), [])
             | None \<Rightarrow> (ServiceWorker 404 ''not found'', []))
          else
            (case manifest_error s of
               Some e \<Rightarrow>
                 (ErrorPage 500 (error_template (load_error_page rw) 500 (message_or_default e)), [])
             | None \<Rightarrow>
                 (case manifest_data s of
                    None \<Rightarrow> (Status500, [])
                  | Some md \<Rightarrow> dispatch_route rw md req)))"

definition reaches_manifest_check :: "kit_config \<Rightarrow> router_world \<Rightarrow> request \<Rightarrow> bool" where
  \<comment> \<open>the request is not answered before the test of \<^verbatim>\<open>manifest_error\<close>\<close>
  "reaches_manifest_check cfg rw req =
     (case decoded req of
        None \<Rightarrow> False
      | Some d \<Rightarrow>
          \<not> is_static_file cfg rw d \<and> startsWith d (paths_base cfg) \<and>
          d \<noteq> paths_base cfg @ ''/service-worker.js'')"

text \<open>
  The replacement that the message of an error page is meant to get: every occurrence of
  the pattern, from the left and without overlap, gives way to the text as it is.
\<close>

function substitute_all :: "string \<Rightarrow> string \<Rightarrow> string \<Rightarrow> string" where
  "substitute_all p r [] = []"
| "substitute_all p r (c # cs) =
     (if p \<noteq> [] \<and> prefix p (c # cs)
      then r @ substitute_all p r (drop (length p) (c # cs))
      else c # substitute_all p r cs)"
  by pat_completeness auto
termination
  by (relation "measure (\<lambda>(p, r, s). length s)") auto

definition example_router :: router_world where
  "example_router =
     \<lparr>resolve_file = (\<lambda>p. ''/app/'' @ p), file_system = example_fs, fs_strict = True,
      fs_allow = [''/app''],
      resolve_entry = (\<lambda>p. if p = ''/app/src/service-worker'' then Some (p @ ''.js'') else None),
      to_fs = (\<lambda>p. ''/@fs'' @ p),
      load_error_page = ''<h1>%sveltekit.status%</h1><p>%sveltekit.error.message%</p>'',
      environments = (\<lambda>name.
        if name = ''ssr'' then Some (\<lambda>req. Some \<lparr>status = 404, body = ''Not Found''\<rparr>)
        else if name = ''edge'' then Some (\<lambda>req. Some \<lparr>status = 200, body = ''from the edge''\<rparr>)
        else None),
      serve_static = (\<lambda>u. False)\<rparr>"

definition broken_state :: dev_state where
  "broken_state = initial_state\<lparr>manifest_error := Some \<lparr>message = Some ''routes conflict''\<rparr>\<rparr>"

definition serving_state :: dev_state where
  "serving_state = initial_state\<lparr>manifest_data := Some example_manifest\<rparr>"

definition example_request :: "string \<Rightarrow> string \<Rightarrow> request" where
  \<comment> \<open>a request with its URL and the decoded pathname of that URL\<close>
  "example_request u d = \<lparr>url = u, stripped_url = u, decoded = Some d\<rparr>"


section \<open>Properties\<close>

subsection \<open>The patched global fetch\<close>

lemma relative_url_message_names_url: "sublist info (relative_url_message info)"
  unfolding relative_url_message_def by (metis sublist_appendI sublist_order.order_refl append.assoc)

lemma relative_url_message_event_fetch: "sublist ''event.fetch'' (relative_url_message info)"
  unfolding sublist_def relative_url_message_def
  apply (rule exI[of _ "''Cannot use relative URL ('' @ info @ '') with global fetch '' @ em_dash @ '' use `''"])
  apply (rule exI[of _ "''` instead: https://kit.svelte.dev/docs/web-standards#fetch-apis''"])
  by simp

text \<open>
  Claim C10. A string argument on which the test of \<^verbatim>\<open>SCHEME\<close> fails makes the patched
  fetch throw an error whose message contains the argument and points to \<^verbatim>\<open>event.fetch\<close>;
  the original fetch is not called. Every other call (an argument that is not a string, or
  a string with a scheme) is forwarded to the original fetch with the same arguments.
\<close>

theorem patched_fetch_relative_url:
  "(info = StringInfo s \<and> \<not> SCHEME_test s \<longrightarrow>
      (\<exists>msg. patched_fetch SCHEME_test info init = Threw msg \<and> sublist s msg \<and>
         sublist ''event.fetch'' msg)) \<and>
   ((\<forall>s. info = StringInfo s \<longrightarrow> SCHEME_test s) \<longrightarrow>
      patched_fetch SCHEME_test info init = Forwarded info init)"
proof (cases info)
  case (StringInfo u)
  then show ?thesis
    using relative_url_message_names_url [of u] relative_url_message_event_fetch [of u]
    by auto
next
  case (OtherInfo x)
  then show ?thesis by simp
qed

theorem patched_fetch_relative_url_witness:
  "(\<exists>msg. patched_fetch (\<lambda>u. CHR '':'' \<in> set u) (StringInfo ''/api/items'' :: nat fetch_info) ()
        = Threw msg \<and> sublist ''/api/items'' msg \<and> sublist ''event.fetch'' msg) \<and>
   patched_fetch (\<lambda>u. CHR '':'' \<in> set u) (StringInfo ''https://example.com/x'' :: nat fetch_info) ()
        = Forwarded (StringInfo ''https://example.com/x'') () \<and>
   patched_fetch (\<lambda>u. CHR '':'' \<in> set u) (OtherInfo (7::nat)) () = Forwarded (OtherInfo 7) ()"
  using patched_fetch_relative_url [of "StringInfo ''/api/items'' :: nat fetch_info" "''/api/items''"
      "\<lambda>u. CHR '':'' \<in> set u" "()"]
    patched_fetch_relative_url [of "StringInfo ''https://example.com/x'' :: nat fetch_info" "''''"
      "\<lambda>u. CHR '':'' \<in> set u" "()"]
    patched_fetch_relative_url [of "OtherInfo (7::nat)" "''''" "\<lambda>u. CHR '':'' \<in> set u" "()"]
  by simp

subsection \<open>The source-map padding\<close>

lemma length_split_on: "length (split_on sep cur s) = Suc (count_list s sep)"
  by (induction s arbitrary: cur) auto

lemma indexOf_from_first:
  "\<forall>j < length pre. \<not> prefix p (drop j (pre @ p @ post)) \<Longrightarrow>
   indexOf_from i (pre @ p @ post) p = int (i + length pre)"
proof (induction pre arbitrary: i)
  case Nil
  have "prefix p (p @ post)" by simp
  then show ?case by (cases "p @ post") auto
next
  case (Cons c pre)
  have a: "\<not> prefix p ((c # pre) @ p @ post)" using Cons.prems by (metis drop0 length_greater_0_conv list.simps(3))
  have b: "\<forall>j<length pre. \<not> prefix p (drop j (pre @ p @ post))"
    using Cons.prems by (metis Suc_less_eq append_Cons drop_Suc_Cons length_Cons)
  show ?case using a Cons.IH[OF b, of "Suc i"] by simp
qed

lemma padding_count:
  assumes "source = pre @ padding_body @ post"
    and "\<forall>j < length pre. \<not> prefix padding_body (drop j source)"
  shows "asyncFunctionDeclarationPaddingLineCount source = count_list pre newline"
  using assms indexOf_from_first[of pre padding_body post 0]
  by (simp add: asyncFunctionDeclarationPaddingLineCount_def indexOf_def slice0_def length_split_on)

lemma count_list_replicate_same: "count_list (replicate n c) c = n"
  by (induction n) auto

text \<open>
  Claim C9. \<^verbatim>\<open>processSourceMap\<close> returns the map with its other fields unchanged and its
  mappings prefixed by exactly \<^verbatim>\<open>asyncFunctionDeclarationPaddingLineCount\<close> semicolons, so
  every mapped line moves down by that many lines; and that count is the number of line
  feeds that precede the first occurrence of the body in the text of the wrapper.
\<close>

theorem processSourceMap_padding:
  "mappings (processSourceMap source m) =
     replicate (asyncFunctionDeclarationPaddingLineCount source) CHR '';'' @ mappings m \<and>
   other_fields (processSourceMap source m) = other_fields m \<and>
   count_list (mappings (processSourceMap source m)) CHR '';'' =
     asyncFunctionDeclarationPaddingLineCount source + count_list (mappings m) CHR '';'' \<and>
   (source = pre @ padding_body @ post \<and>
    (\<forall>j < length pre. \<not> prefix padding_body (drop j source)) \<longrightarrow>
      asyncFunctionDeclarationPaddingLineCount source = count_list pre newline)"
proof -
  have "source = pre @ padding_body @ post \<and>
      (\<forall>j < length pre. \<not> prefix padding_body (drop j source)) \<longrightarrow>
      asyncFunctionDeclarationPaddingLineCount source = count_list pre newline"
    using padding_count [of source pre post] by blast
  then show ?thesis
    by (simp add: processSourceMap_def count_list_replicate_same)
qed

theorem processSourceMap_padding_witness:
  "mappings (processSourceMap (dynamic_function_source [''a'', ''b''] padding_body)
      \<lparr>mappings = ''AAAA;AACA'', other_fields = ''file.js''\<rparr>) = '';;AAAA;AACA'' \<and>
   asyncFunctionDeclarationPaddingLineCount (dynamic_function_source [''a'', ''b''] padding_body) =
     count_list (''async function anonymous(a,b'' @ [newline] @ '') {'' @ [newline]) newline \<and>
   asyncFunctionDeclarationPaddingLineCount (dynamic_function_source [''a'', ''b''] padding_body) = 2"
proof -
  let ?src = "dynamic_function_source [''a'', ''b''] padding_body"
  let ?pre = "''async function anonymous(a,b'' @ [newline] @ '') {'' @ [newline]"
  have src: "?src = ?pre @ padding_body @ ([newline] @ ''}'')"
    by (simp add: dynamic_function_source_def)
  have first: "\<forall>j < length ?pre. \<not> prefix padding_body (drop j ?src)"
    by (simp add: dynamic_function_source_def padding_body_def newline_def All_less_Suc)
  have n: "asyncFunctionDeclarationPaddingLineCount ?src = count_list ?pre newline"
    using processSourceMap_padding [of ?src "\<lparr>mappings = ''AAAA;AACA'', other_fields = ''file.js''\<rparr>" ?pre "[newline] @ ''}''"] src first
    by blast
  have two: "count_list ?pre newline = 2" by (simp add: newline_def)
  have m: "mappings (processSourceMap ?src \<lparr>mappings = ''AAAA;AACA'', other_fields = ''file.js''\<rparr>) = '';;AAAA;AACA''"
    using n two by (simp add: processSourceMap_def numeral_2_eq_2 del: count_list.simps)
  show ?thesis using n two m by simp
qed

subsection \<open>The manifest, the watchers and the debounce timer\<close>

lemma invalidate_context_eq:
  "invalidate_context envs s =
     s\<lparr>trace := trace s @ map (\<lambda>e. (now s, InvalidateModule (fst e))) (filter snd envs)\<rparr>"
  unfolding invalidate_context_def
  by (induction envs arbitrary: s) (auto simp: emit_def)

lemma update_manifest_fields:
  "timers (update_manifest w s) = timers s"
  "timeout (update_manifest w s) = timeout s"
  "restarting (update_manifest w s) = restarting s"
  "now (update_manifest w s) = now s"
  "next_handle (update_manifest w s) = next_handle s"
  by (auto simp: update_manifest_def invalidate_context_eq emit_def Let_def
      split: sum.splits option.splits)

lemma update_manifest_rebuild_times:
  "rebuild_times (update_manifest w s) = rebuild_times s @ [now s]"
  by (auto simp: update_manifest_def invalidate_context_eq emit_def Let_def rebuild_times_def
      filter_map comp_def
      split: sum.splits option.splits)

lemma update_manifest_updated_files:
  "updated_files (update_manifest w s) = updated_files s"
  by (auto simp: update_manifest_def invalidate_context_eq emit_def Let_def updated_files_def
      comp_def
      split: sum.splits option.splits)

text \<open>
  Claim C2. When the call of \<^verbatim>\<open>sync.create\<close> in \<^verbatim>\<open>update_manifest\<close> throws, the manifest
  that was published before stays as it was and \<^verbatim>\<open>manifest_error\<close> becomes the error
  thrown; when the call returns, its manifest replaces the published one and
  \<^verbatim>\<open>manifest_error\<close> is null afterwards. The state before is arbitrary, so this holds for
  the rebuild after a failure as for any other.
\<close>

theorem update_manifest_atomic:
  "(sync_create w (now s) = Inl error \<longrightarrow>
      manifest_data (update_manifest w s) = manifest_data s \<and>
      manifest_error (update_manifest w s) = Some error) \<and>
   (sync_create w (now s) = Inr created \<longrightarrow>
      manifest_data (update_manifest w s) = Some created \<and>
      manifest_error (update_manifest w s) = None)"
  by (auto simp: update_manifest_def invalidate_context_eq emit_def Let_def
      split: option.splits)

theorem update_manifest_atomic_witness:
  "sync_create example_world (now (initial_state\<lparr>manifest_data := Some example_manifest, now := 2000\<rparr>))
     = Inl \<lparr>message = Some ''routes conflict''\<rparr> \<and>
   manifest_data (update_manifest example_world
      (initial_state\<lparr>manifest_data := Some example_manifest, now := 2000\<rparr>)) = Some example_manifest \<and>
   manifest_error (update_manifest example_world
      (initial_state\<lparr>manifest_data := Some example_manifest, now := 2000\<rparr>))
     = Some \<lparr>message = Some ''routes conflict''\<rparr> \<and>
   sync_create example_world
      (now (initial_state\<lparr>manifest_error := Some \<lparr>message = Some ''routes conflict''\<rparr>, now := 5\<rparr>))
     = Inr example_manifest \<and>
   manifest_data (update_manifest example_world
      (initial_state\<lparr>manifest_error := Some \<lparr>message = Some ''routes conflict''\<rparr>, now := 5\<rparr>))
     = Some example_manifest \<and>
   manifest_error (update_manifest example_world
      (initial_state\<lparr>manifest_error := Some \<lparr>message = Some ''routes conflict''\<rparr>, now := 5\<rparr>)) = None"
  using update_manifest_atomic [of example_world
      "initial_state\<lparr>manifest_data := Some example_manifest, now := 2000\<rparr>"
      "\<lparr>message = Some ''routes conflict''\<rparr>" example_manifest]
    update_manifest_atomic [of example_world
      "initial_state\<lparr>manifest_error := Some \<lparr>message = Some ''routes conflict''\<rparr>, now := 5\<rparr>"
      "\<lparr>message = Some ''routes conflict''\<rparr>" example_manifest]
  by (simp add: example_world_def initial_state_def)

lemma on_all_fields:
  "timers (on_all cfg f s) = timers s"
  "timeout (on_all cfg f s) = timeout s"
  "restarting (on_all cfg f s) = restarting s"
  "now (on_all cfg f s) = now s"
  "manifest_data (on_all cfg f s) = manifest_data s"
  "manifest_error (on_all cfg f s) = manifest_error s"
  "rebuild_times (on_all cfg f s) = rebuild_times s"
  "updated_files (on_all cfg f s) = updated_files s"
  by (auto simp: on_all_def emit_def rebuild_times_def updated_files_def)

lemma on_change_config_fields:
  "timers (on_change_config f s) = timers s"
  "timeout (on_change_config f s) = timeout s"
  "now (on_change_config f s) = now s"
  "manifest_data (on_change_config f s) = manifest_data s"
  "manifest_error (on_change_config f s) = manifest_error s"
  "rebuild_times (on_change_config f s) = rebuild_times s"
  "updated_files (on_change_config f s) = updated_files s"
  "restarting s \<Longrightarrow> restarting (on_change_config f s)"
  by (auto simp: on_change_config_def emit_def rebuild_times_def updated_files_def)

lemma on_change_appTemplate_fields:
  "timers (on_change_appTemplate cfg f s) = timers s"
  "timeout (on_change_appTemplate cfg f s) = timeout s"
  "restarting (on_change_appTemplate cfg f s) = restarting s"
  "now (on_change_appTemplate cfg f s) = now s"
  "manifest_data (on_change_appTemplate cfg f s) = manifest_data s"
  "manifest_error (on_change_appTemplate cfg f s) = manifest_error s"
  "rebuild_times (on_change_appTemplate cfg f s) = rebuild_times s"
  "updated_files (on_change_appTemplate cfg f s) = updated_files s"
  by (auto simp: on_change_appTemplate_def emit_def rebuild_times_def updated_files_def)

lemma on_change_fields:
  "timers (on_change cfg f s) = timers s"
  "timeout (on_change cfg f s) = timeout s"
  "restarting (on_change cfg f s) = restarting s"
  "now (on_change cfg f s) = now s"
  "manifest_data (on_change cfg f s) = manifest_data s"
  "manifest_error (on_change cfg f s) = manifest_error s"
  "rebuild_times (on_change cfg f s) = rebuild_times s"
  by (auto simp: on_change_def emit_def rebuild_times_def)

lemma on_change_updated_files:
  "updated_files (on_change cfg f s) =
     updated_files s @ (if watched cfg f \<and> timeout s = None \<and> \<not> restarting s then [f] else [])"
  by (auto simp: on_change_def emit_def updated_files_def)

text \<open>
  Claim C7. A change event on a file that passes the filter of \<^verbatim>\<open>watch\<close>: while a
  debounced rebuild is pending or the server is restarting its handler does nothing;
  otherwise it calls \<^verbatim>\<open>sync.update\<close> once, with the current manifest and that file. In both
  cases the whole event runs no rebuild and arms no timer, and the manifest and its error
  stay as they were.
\<close>

theorem change_event_incremental_update:
  assumes "watched cfg file"
  shows "(timeout s \<noteq> None \<or> restarting s \<longrightarrow> on_change cfg file s = s) \<and>
    (timeout s = None \<and> \<not> restarting s \<longrightarrow>
       on_change cfg file s = emit (SyncUpdate (manifest_data s) file) s) \<and>
    updated_files (watcher_emit cfg Change file s) =
      updated_files s @ (if timeout s \<noteq> None \<or> restarting s then [] else [file]) \<and>
    rebuild_times (watcher_emit cfg Change file s) = rebuild_times s \<and>
    timers (watcher_emit cfg Change file s) = timers s \<and>
    timeout (watcher_emit cfg Change file s) = timeout s \<and>
    manifest_data (watcher_emit cfg Change file s) = manifest_data s \<and>
    manifest_error (watcher_emit cfg Change file s) = manifest_error s"
proof -
  have handler: "(timeout s \<noteq> None \<or> restarting s \<longrightarrow> on_change cfg file s = s) \<and>
    (timeout s = None \<and> \<not> restarting s \<longrightarrow>
       on_change cfg file s = emit (SyncUpdate (manifest_data s) file) s)"
    using assms by (simp add: on_change_def)
  have files: "updated_files (watcher_emit cfg Change file s) =
      updated_files s @ (if timeout s \<noteq> None \<or> restarting s then [] else [file])"
    using assms
    by (simp add: on_all_fields on_change_config_fields on_change_appTemplate_fields
        on_change_updated_files)
  show ?thesis
    using handler files
    by (simp add: on_all_fields on_change_config_fields on_change_appTemplate_fields
        on_change_fields)
qed

theorem change_event_incremental_update_witness:
  "watched example_config ''/app/src/routes/a/+page.svelte'' \<and>
   updated_files (watcher_emit example_config Change ''/app/src/routes/a/+page.svelte'' initial_state)
     = [''/app/src/routes/a/+page.svelte''] \<and>
   on_change example_config ''/app/src/routes/a/+page.svelte'' (debounce initial_state)
     = debounce initial_state \<and>
   updated_files (watcher_emit example_config Change ''/app/src/routes/a/+page.svelte''
      (debounce initial_state)) = []"
proof -
  have w: "watched example_config ''/app/src/routes/a/+page.svelte''"
    by (simp add: example_config_def watched_def startsWith_def path_sep_def)
  have p: "timeout (debounce initial_state) \<noteq> None"
    by (simp add: debounce_def setTimeout_def initial_state_def)
  have i: "timeout initial_state = None" "\<not> restarting initial_state"
    "updated_files initial_state = []" "updated_files (debounce initial_state) = []"
    by (simp_all add: initial_state_def updated_files_def debounce_def setTimeout_def)
  have a: "updated_files (watcher_emit example_config Change ''/app/src/routes/a/+page.svelte''
      initial_state) = [''/app/src/routes/a/+page.svelte'']"
    using change_event_incremental_update [OF w, of initial_state] i
    by (simp del: watcher_emit.simps)
  have b: "on_change example_config ''/app/src/routes/a/+page.svelte'' (debounce initial_state)
      = debounce initial_state \<and>
    updated_files (watcher_emit example_config Change ''/app/src/routes/a/+page.svelte''
      (debounce initial_state)) = []"
    using change_event_incremental_update [OF w, of "debounce initial_state"] p i
    by (simp del: watcher_emit.simps)
  show ?thesis using w a b by blast
qed

lemma armed_iff: "armed s d \<longleftrightarrow> (\<exists>h. timeout s = Some h \<and> timers s = [(h, d)])"
  by (auto simp: armed_def split: option.splits)

lemma debounce_fields:
  "now (debounce s) = now s"
  "restarting (debounce s) = restarting s"
  "trace (debounce s) = trace s"
  "manifest_data (debounce s) = manifest_data s"
  "manifest_error (debounce s) = manifest_error s"
  by (auto simp: debounce_def setTimeout_def clearTimeout_def split: option.splits)

lemma debounce_rearms:
  assumes "idle s \<or> armed s d"
  shows "armed (debounce s) (now s + 100)"
  using assms
  by (auto simp: idle_def armed_iff debounce_def setTimeout_def clearTimeout_def)

lemma run_timers_none:
  "next_due T (timers s) = None \<Longrightarrow> run_timers w T s = s\<lparr>now := max (now s) T\<rparr>"
  by (subst run_timers.simps) simp

lemma run_timers_not_due:
  assumes "idle s \<or> (armed s d \<and> T < d)"
  shows "run_timers w T s = s\<lparr>now := max (now s) T\<rparr>"
proof -
  have "next_due T (timers s) = None"
    using assms by (auto simp: idle_def armed_iff next_due_def)
  then show ?thesis by (rule run_timers_none)
qed

lemma run_timers_fires:
  assumes "armed s d" and "d \<le> T" and "now s \<le> d"
  shows "rebuild_times (run_timers w T s) = rebuild_times s @ [d]"
    and "idle (run_timers w T s)"
proof -
  from assms(1) obtain h where h: "timeout s = Some h" "timers s = [(h, d)]"
    by (auto simp: armed_iff)
  let ?s1 = "timer_callback w (s\<lparr>timers := remove1 (h, d) (timers s), now := max (now s) (snd (h, d))\<rparr>)"
  have due: "next_due T (timers s) = Some (h, d)"
    using h assms(2) by (simp add: next_due_def)
  have step: "run_timers w T s = run_timers w T ?s1"
    by (subst run_timers.simps) (simp add: due)
  have t1: "timers ?s1 = []" "timeout ?s1 = None"
    using h by (simp_all add: timer_callback_def update_manifest_fields)
  have "next_due T (timers ?s1) = None" using t1 by (simp add: next_due_def)
  then have fin: "run_timers w T ?s1 = ?s1\<lparr>now := max (now ?s1) T\<rparr>"
    by (rule run_timers_none)
  have rt: "rebuild_times ?s1 = rebuild_times s @ [d]"
    using assms(3)
    by (simp add: timer_callback_def update_manifest_rebuild_times max_def)
      (simp add: rebuild_times_def)
  show "rebuild_times (run_timers w T s) = rebuild_times s @ [d]"
    using step fin rt by (simp add: rebuild_times_def)
  show "idle (run_timers w T s)"
    using step fin t1 by (simp add: idle_def)
qed

lemma burst_step:
  assumes ok: "idle s \<or> (armed s d \<and> t < d)"
    and kind: "kind = Add \<or> kind = Unlink" and f: "watched cfg file" and t: "now s \<le> t"
  shows "armed (watcher_emit cfg kind file (run_timers w t s)) (t + 100)"
    and "now (watcher_emit cfg kind file (run_timers w t s)) = t"
    and "rebuild_times (watcher_emit cfg kind file (run_timers w t s)) = rebuild_times s"
proof -
  let ?s1 = "s\<lparr>now := max (now s) t\<rparr>"
  have r: "run_timers w t s = ?s1" using ok by (rule run_timers_not_due)
  have ok1: "idle ?s1 \<or> armed ?s1 d" using ok by (auto simp: idle_def armed_iff)
  have n1: "now ?s1 = t" using t by (simp add: max_def)
  have a: "armed (debounce ?s1) (t + 100)" using debounce_rearms [OF ok1] n1 by simp
  have e: "watcher_emit cfg kind file ?s1 = on_all cfg file (debounce ?s1)"
    using kind f by (auto simp: on_add_def on_unlink_def)
  show "armed (watcher_emit cfg kind file (run_timers w t s)) (t + 100)"
    using a unfolding r e by (simp add: armed_iff on_all_fields)
  show "now (watcher_emit cfg kind file (run_timers w t s)) = t"
    unfolding r e using n1 by (simp add: on_all_fields debounce_fields)
  show "rebuild_times (watcher_emit cfg kind file (run_timers w t s)) = rebuild_times s"
    unfolding r e by (simp add: on_all_fields) (simp add: rebuild_times_def debounce_fields)
qed

lemma burst_run:
  assumes "add_unlink_burst cfg evs" and "evs \<noteq> []"
    and "idle s \<or> (armed s d \<and> fst (hd evs) < d)" and "now s \<le> fst (hd evs)"
  shows "armed (run_events cfg w evs s) (fst (last evs) + 100) \<and>
         now (run_events cfg w evs s) = fst (last evs) \<and>
         rebuild_times (run_events cfg w evs s) = rebuild_times s"
  using assms
proof (induction cfg evs arbitrary: s d rule: add_unlink_burst.induct)
  case (1 cfg)
  then show ?case by simp
next
  case (2 cfg t kind f)
  then show ?case
    using burst_step [of s d t kind cfg f w] by simp
next
  case (3 cfg t kind f t' e es)
  let ?s1 = "watcher_emit cfg kind f (run_timers w t s)"
  have st: "armed ?s1 (t + 100)" "now ?s1 = t" "rebuild_times ?s1 = rebuild_times s"
    using burst_step [of s d t kind cfg f w] "3.prems" by simp_all
  have "armed (run_events cfg w ((t', e) # es) ?s1) (fst (last ((t', e) # es)) + 100) \<and>
        now (run_events cfg w ((t', e) # es) ?s1) = fst (last ((t', e) # es)) \<and>
        rebuild_times (run_events cfg w ((t', e) # es) ?s1) = rebuild_times ?s1"
    using "3.IH" [of ?s1 "t + 100"] "3.prems" st by simp
  then show ?case using st by simp
qed

lemma burst_prefix:
  "add_unlink_burst cfg (es1 @ es2) \<Longrightarrow> add_unlink_burst cfg es1"
proof (induction cfg es1 rule: add_unlink_burst.induct)
  case (1 cfg)
  then show ?case by simp
next
  case (2 cfg t kind f)
  then show ?case by (cases es2) auto
next
  case (3 cfg t kind f t' e es)
  then show ?case by simp
qed

text \<open>
  There is never more than one timer: from the initial state, whatever events arrive and
  whenever the timers run, the state is idle or has the one timer whose handle
  \<^verbatim>\<open>timeout\<close> holds.
\<close>

lemma timer_ok_cong:
  "timeout s' = timeout s \<Longrightarrow> timers s' = timers s \<Longrightarrow> timer_ok s' = timer_ok s"
  by (simp add: timer_ok_def idle_def armed_iff)

lemma timer_ok_run_timers: "timer_ok s \<Longrightarrow> timer_ok (run_timers w T s)"
proof (induction w T s rule: run_timers.induct)
  case (1 w T s)
  show ?case
  proof (cases "next_due T (timers s)")
    case None
    then have "run_timers w T s = s\<lparr>now := max (now s) T\<rparr>" by (rule run_timers_none)
    then show ?thesis using "1.prems" timer_ok_cong [of "s\<lparr>now := max (now s) T\<rparr>" s] by simp
  next
    case (Some t)
    let ?s1 = "timer_callback w (s\<lparr>timers := remove1 t (timers s), now := max (now s) (snd t)\<rparr>)"
    have mem: "t \<in> set (timers s)"
      using Some earliest_mem unfolding next_due_def by fastforce
    then obtain h d where "timeout s = Some h" "timers s = [(h, d)]" "t = (h, d)"
      using "1.prems" by (auto simp: timer_ok_def idle_def armed_iff)
    then have "idle ?s1"
      by (simp add: idle_def timer_callback_def update_manifest_fields)
    then have "timer_ok ?s1" by (simp add: timer_ok_def)
    then have "timer_ok (run_timers w T ?s1)" using "1.IH" [OF Some] by simp
    moreover have "run_timers w T s = run_timers w T ?s1"
      by (subst run_timers.simps) (simp add: Some)
    ultimately show ?thesis by simp
  qed
qed

lemma timer_ok_watcher_emit: "timer_ok s \<Longrightarrow> timer_ok (watcher_emit cfg kind f s)"
proof (cases "(kind = Add \<or> kind = Unlink) \<and> watched cfg f")
  case True
  assume "timer_ok s"
  then have "idle s \<or> (\<exists>d. armed s d)" by (simp add: timer_ok_def)
  then obtain d where "idle s \<or> armed s d" by auto
  then have "armed (debounce s) (now s + 100)" by (rule debounce_rearms)
  then have "timer_ok (debounce s)" by (auto simp: timer_ok_def)
  moreover have "watcher_emit cfg kind f s = on_all cfg f (debounce s)"
    using True by (auto simp: on_add_def on_unlink_def)
  ultimately show ?thesis
    using timer_ok_cong [of "on_all cfg f (debounce s)" "debounce s"] by (simp add: on_all_fields)
next
  case False
  assume ok: "timer_ok s"
  have "timeout (watcher_emit cfg kind f s) = timeout s \<and> timers (watcher_emit cfg kind f s) = timers s"
    using False
    by (cases kind)
      (auto simp: on_add_def on_unlink_def on_all_fields on_change_config_fields
        on_change_appTemplate_fields on_change_fields)
  then show ?thesis using ok timer_ok_cong by blast
qed

lemma timer_ok_run_events: "timer_ok s \<Longrightarrow> timer_ok (run_events cfg w evs s)"
proof (induction evs arbitrary: s)
  case Nil
  then show ?case by simp
next
  case (Cons e evs)
  obtain t kind f where e: "e = (t, kind, f)" by (cases e) auto
  show ?case
    using Cons.IH [of "watcher_emit cfg kind f (run_timers w t s)"] Cons.prems e
    by (simp add: timer_ok_run_timers timer_ok_watcher_emit)
qed

lemma timer_ok_initial: "timer_ok initial_state"
  by (simp add: timer_ok_def idle_def initial_state_def)

lemma timer_ok_update_manifest: "timer_ok s \<Longrightarrow> timer_ok (update_manifest w s)"
  using timer_ok_cong [of "update_manifest w s" s] by (simp add: update_manifest_fields)

text \<open>
  Claim C3. A burst of add and unlink events on watched files, each less than 100 ms after
  the one before, starting while no timer is armed (or while the one armed timer is not yet
  due): \<^verbatim>\<open>update_manifest\<close> runs exactly once, 100 ms after the last event, and the timer
  is idle afterwards. After every event of the burst exactly one timer is armed, due 100 ms
  after that event, and no rebuild has run.
\<close>

theorem debounce_coalesces_burst:
  assumes burst: "add_unlink_burst cfg evs" and ne: "evs \<noteq> []"
    and start: "idle s \<or> (armed s d \<and> fst (hd evs) < d)" and clock: "now s \<le> fst (hd evs)"
    and T: "fst (last evs) + 100 \<le> T"
  shows "rebuild_times (run_timers w T (run_events cfg w evs s)) =
           rebuild_times s @ [fst (last evs) + 100] \<and>
         idle (run_timers w T (run_events cfg w evs s)) \<and>
         (\<forall>es1 es2. evs = es1 @ es2 \<and> es1 \<noteq> [] \<longrightarrow>
            armed (run_events cfg w es1 s) (fst (last es1) + 100) \<and>
            rebuild_times (run_events cfg w es1 s) = rebuild_times s)"
proof -
  have fin: "armed (run_events cfg w evs s) (fst (last evs) + 100)"
    "now (run_events cfg w evs s) = fst (last evs)"
    "rebuild_times (run_events cfg w evs s) = rebuild_times s"
    using burst_run [OF burst ne start clock] by simp_all
  have fire: "rebuild_times (run_timers w T (run_events cfg w evs s)) =
      rebuild_times s @ [fst (last evs) + 100]"
    "idle (run_timers w T (run_events cfg w evs s))"
    using run_timers_fires [OF fin(1) T, of w] fin(2,3) by simp_all
  have during: "armed (run_events cfg w es1 s) (fst (last es1) + 100) \<and>
      rebuild_times (run_events cfg w es1 s) = rebuild_times s"
    if "evs = es1 @ es2" and "es1 \<noteq> []" for es1 es2
  proof -
    have b1: "add_unlink_burst cfg es1" using burst that(1) burst_prefix by blast
    have hd1: "hd es1 = hd evs" using that by simp
    show ?thesis
      using burst_run [OF b1 that(2), of s d w] start clock hd1 by simp
  qed
  show ?thesis using fire during by blast
qed

lemma example_burst_ok: "add_unlink_burst example_config example_burst"
  by (simp add: example_burst_def example_config_def watched_def startsWith_def path_sep_def)

theorem debounce_coalesces_burst_witness:
  "add_unlink_burst example_config example_burst \<and>
   rebuild_times (run_timers example_world 400
      (run_events example_config example_world example_burst initial_state)) = [250] \<and>
   idle (run_timers example_world 400
      (run_events example_config example_world example_burst initial_state))"
proof -
  have start: "idle initial_state \<or> (armed initial_state 0 \<and> fst (hd example_burst) < 0)"
    by (simp add: idle_def initial_state_def)
  have clock: "now initial_state \<le> fst (hd example_burst)"
    by (simp add: initial_state_def)
  have ne: "example_burst \<noteq> []" by (simp add: example_burst_def)
  have T: "fst (last example_burst) + 100 \<le> 400" by (simp add: example_burst_def)
  show ?thesis
    using debounce_coalesces_burst [OF example_burst_ok ne start clock T, of example_world]
      example_burst_ok
    by (simp add: example_burst_def rebuild_times_def initial_state_def)
qed

lemma run_timers_restarting: "restarting (run_timers w T s) = restarting s"
proof (induction w T s rule: run_timers.induct)
  case (1 w T s)
  show ?case
  proof (cases "next_due T (timers s)")
    case None
    then show ?thesis by (simp add: run_timers_none)
  next
    case (Some t)
    then show ?thesis
      using "1.IH" [OF Some]
      by (subst run_timers.simps) (simp add: timer_callback_def update_manifest_fields)
  qed
qed

lemma run_timers_updated_files: "updated_files (run_timers w T s) = updated_files s"
proof (induction w T s rule: run_timers.induct)
  case (1 w T s)
  show ?case
  proof (cases "next_due T (timers s)")
    case None
    then show ?thesis by (simp add: run_timers_none updated_files_def)
  next
    case (Some t)
    have "updated_files (run_timers w T s) =
        updated_files (timer_callback w (s\<lparr>timers := remove1 t (timers s), now := max (now s) (snd t)\<rparr>))"
      using "1.IH" [OF Some] by (subst run_timers.simps) (simp add: Some)
    also have "\<dots> = updated_files s"
      by (simp add: timer_callback_def update_manifest_updated_files) (simp add: updated_files_def)
    finally show ?thesis .
  qed
qed

lemma watcher_emit_restarting:
  assumes "restarting s"
  shows "restarting (watcher_emit cfg kind f s)"
    and "updated_files (watcher_emit cfg kind f s) = updated_files s"
    and "ws_sent (watcher_emit cfg kind f s) = ws_sent s"
  using assms
  by (cases kind;
      simp add: on_all_def on_add_def on_unlink_def on_change_def on_change_appTemplate_def
        on_change_config_def emit_def debounce_def setTimeout_def clearTimeout_def
        updated_files_def ws_sent_def split: option.splits)+

lemma run_events_restarting:
  "restarting s \<Longrightarrow>
     restarting (run_events cfg w evs s) \<and> updated_files (run_events cfg w evs s) = updated_files s"
proof (induction evs arbitrary: s)
  case Nil
  then show ?case by simp
next
  case (Cons e evs)
  obtain t kind f where e: "e = (t, kind, f)" by (cases e) auto
  let ?s1 = "watcher_emit cfg kind f (run_timers w t s)"
  have r: "restarting (run_timers w t s)" using Cons.prems by (simp add: run_timers_restarting)
  have "restarting ?s1" "updated_files ?s1 = updated_files s"
    using watcher_emit_restarting [OF r] by (simp_all add: run_timers_updated_files)
  then show ?case using Cons.IH [of ?s1] e by simp
qed

text \<open>
  Claim C8, as amended. A change of a file named \<^verbatim>\<open>svelte.config.js\<close> sets the flag
  \<^verbatim>\<open>restarting\<close>. Once it is set it stays set through every later event and timer, no
  later event leads to a call of \<^verbatim>\<open>sync.update\<close>, and the listeners of an event send
  nothing over the websocket (so no full reload for the app template).
\<close>

theorem restarting_suppresses_updates:
  "(basename file = ''svelte.config.js'' \<longrightarrow> restarting (watcher_emit cfg Change file s0)) \<and>
   (restarting s \<longrightarrow>
      restarting (run_timers w T (run_events cfg w evs s)) \<and>
      updated_files (run_timers w T (run_events cfg w evs s)) = updated_files s \<and>
      ws_sent (watcher_emit cfg kind f s) = ws_sent s)"
proof -
  have "restarting (watcher_emit cfg Change file s0)" if "basename file = ''svelte.config.js''"
    using that by (simp add: on_all_fields on_change_config_def emit_def)
  then show ?thesis
    using run_events_restarting [of s cfg w evs] watcher_emit_restarting(3) [of s cfg kind f]
    by (simp add: run_timers_restarting run_timers_updated_files)
qed

theorem restarting_suppresses_updates_witness:
  "basename ''/app/svelte.config.js'' = ''svelte.config.js'' \<and>
   restarting (watcher_emit example_config Change ''/app/svelte.config.js'' initial_state) \<and>
   restarting (run_timers example_world 400 (run_events example_config example_world
      [(5, Change, ''/app/src/routes/a/+page.svelte'')]
      (watcher_emit example_config Change ''/app/svelte.config.js'' initial_state))) \<and>
   updated_files (run_timers example_world 400 (run_events example_config example_world
      [(5, Change, ''/app/src/routes/a/+page.svelte'')]
      (watcher_emit example_config Change ''/app/svelte.config.js'' initial_state))) = [] \<and>
   ws_sent (watcher_emit example_config Change ''/app/src/app.html''
      (watcher_emit example_config Change ''/app/svelte.config.js'' initial_state)) = []"
proof -
  let ?s = "watcher_emit example_config Change ''/app/svelte.config.js'' initial_state"
  have b: "basename ''/app/svelte.config.js'' = ''svelte.config.js''"
    by (simp add: basename_def)
  have r: "restarting ?s"
    using restarting_suppresses_updates [of "''/app/svelte.config.js''" example_config
        initial_state initial_state example_world 0 "[]" Change "[]"] b
    by blast
  have e: "updated_files ?s = []" "ws_sent ?s = []"
    by (simp_all add: on_all_def on_change_def on_change_appTemplate_def on_change_config_def
        emit_def example_config_def initial_state_def basename_def watched_def startsWith_def
        path_sep_def updated_files_def ws_sent_def)
  show ?thesis
    using restarting_suppresses_updates [of "''/app/svelte.config.js''" example_config
        initial_state ?s example_world 400 "[(5, Change, ''/app/src/routes/a/+page.svelte'')]"
        Change "''/app/src/app.html''"] b r e
    by simp
qed

text \<open>
  The claim as it was stated fails: after the flag is set, a change of the error template
  still calls \<^verbatim>\<open>sync.server\<close>, since the listener of \<^verbatim>\<open>all\<close> does not read the flag.
\<close>

theorem restarting_counterexample:
  "restarting (watcher_emit example_config Change ''/app/svelte.config.js'' initial_state) \<and>
   trace (watcher_emit example_config Change ''/app/src/error.html''
      (watcher_emit example_config Change ''/app/svelte.config.js'' initial_state)) =
   trace (watcher_emit example_config Change ''/app/svelte.config.js'' initial_state) @
     [(0, SyncServer)]"
  by (simp add: on_all_def on_change_def on_change_appTemplate_def on_change_config_def
      emit_def example_config_def initial_state_def basename_def watched_def startsWith_def path_sep_def)

subsection \<open>The asset middleware and has_correct_case\<close>

lemma has_correct_case_walk:
  "has_correct_case fs f assets = Some True \<Longrightarrow> exact_case_walk fs assets f"
proof (induction fs f assets rule: has_correct_case.induct)
  case (1 fs f assets)
  show ?case
  proof (cases "f = assets")
    case True
    then show ?thesis by (simp add: exact_case_walk.at_root)
  next
    case False
    from "1.prems" False obtain names where
      n: "readdirSync fs (dirname f) = Some names" and b: "basename f \<in> set names"
      and r: "has_correct_case fs (dirname f) assets = Some True"
      by (subst (asm) has_correct_case.simps) (auto split: option.splits if_splits)
    have "exact_case_walk fs assets (dirname f)"
      using "1.IH" [OF False n b r] .
    then show ?thesis using n b by (rule exact_case_walk.listed [rotated 2])
  qed
qed

lemma walk_has_correct_case:
  "exact_case_walk fs assets f \<Longrightarrow> has_correct_case fs f assets = Some True"
proof (induction rule: exact_case_walk.induct)
  case at_root
  then show ?case by (subst has_correct_case.simps) simp
next
  case (listed f names)
  then show ?case by (subst has_correct_case.simps) simp
qed

lemma asset_middleware_served:
  "asset_middleware cfg fs (Some d) = AssetServer pathname \<longleftrightarrow>
     startsWith d (assets_prefix cfg) \<and> pathname = drop (length (assets_prefix cfg)) d \<and>
     existsSync fs (files_assets cfg @ pathname) \<and>
     \<not> isDirectory fs (files_assets cfg @ pathname) \<and>
     has_correct_case fs (files_assets cfg @ pathname) (files_assets cfg) = Some True"
  by (auto simp: asset_middleware_def Let_def split: option.splits bool.splits)

text \<open>
  Claim C4. A request under the assets prefix goes to the asset server exactly when the
  target exists, is not a directory and \<^verbatim>\<open>has_correct_case\<close> returns true for it; and
  \<^verbatim>\<open>has_correct_case\<close> returns true exactly when the walk from the file through its parent
  directories arrives at the assets root with every name on the way found, character for
  character, in the listing of its parent. The function reads listings only: no path is
  resolved.
\<close>

theorem assets_served_with_exact_case:
  "(asset_middleware cfg fs (Some d) = AssetServer pathname \<longleftrightarrow>
     startsWith d (assets_prefix cfg) \<and> pathname = drop (length (assets_prefix cfg)) d \<and>
     existsSync fs (files_assets cfg @ pathname) \<and>
     \<not> isDirectory fs (files_assets cfg @ pathname) \<and>
     has_correct_case fs (files_assets cfg @ pathname) (files_assets cfg) = Some True) \<and>
   (has_correct_case fs f assets = Some True \<longleftrightarrow> exact_case_walk fs assets f)"
  using asset_middleware_served [of cfg fs d pathname]
    has_correct_case_walk [of fs f assets] walk_has_correct_case [of fs assets f]
  by blast

theorem assets_served_with_exact_case_witness:
  "asset_middleware example_config example_fs (Some ''/Logo.png'') = AssetServer ''/Logo.png'' \<and>
   exact_case_walk example_fs ''/app/static'' ''/app/static/Logo.png'' \<and>
   asset_middleware example_config example_fs (Some ''/logo.png'') = Next \<and>
   \<not> exact_case_walk example_fs ''/app/static'' ''/app/static/logo.png''"
proof -
  have p: "assets_prefix example_config = []" "files_assets example_config = ''/app/static''"
    by (simp_all add: assets_prefix_def example_config_def)
  have e: "existsSync example_fs ''/app/static/Logo.png''"
    "\<not> isDirectory example_fs ''/app/static/Logo.png''"
    by (simp_all add: existsSync_def isDirectory_def example_fs_def)
  have t: "has_correct_case example_fs ''/app/static/Logo.png'' ''/app/static'' = Some True"
    by (simp add: has_correct_case.simps example_fs_def readdirSync_def dirname_def
        dirname_end_def basename_def)
  have f: "has_correct_case example_fs ''/app/static/logo.png'' ''/app/static'' = Some False"
    by (simp add: has_correct_case.simps example_fs_def readdirSync_def dirname_def
        dirname_end_def basename_def)
  have a: "asset_middleware example_config example_fs (Some ''/Logo.png'') = AssetServer ''/Logo.png''"
    using assets_served_with_exact_case [of example_config example_fs "''/Logo.png''" "''/Logo.png''"
        "''/app/static/Logo.png''" "''/app/static''"] p e t
    by (simp add: startsWith_def)
  have b: "exact_case_walk example_fs ''/app/static'' ''/app/static/Logo.png''"
    using assets_served_with_exact_case [of example_config example_fs "''/Logo.png''" "''/Logo.png''"
        "''/app/static/Logo.png''" "''/app/static''"] t
    by blast
  have c: "\<not> exact_case_walk example_fs ''/app/static'' ''/app/static/logo.png''"
    using assets_served_with_exact_case [of example_config example_fs "''/logo.png''" "''/logo.png''"
        "''/app/static/logo.png''" "''/app/static''"] f
    by simp
  have d: "asset_middleware example_config example_fs (Some ''/logo.png'') = Next"
    using p f by (simp add: asset_middleware_def startsWith_def existsSync_def isDirectory_def example_fs_def)
  show ?thesis using a b c d by blast
qed

text \<open>
  The walk compares paths as texts. A doubled slash right after the assets root makes the
  walk pass the root by (\<^verbatim>\<open>/app/static/\<close> is not \<^verbatim>\<open>/app/static\<close>) and end at \<^verbatim>\<open>/\<close>, whose
  own name is in no listing: the function returns false and the request goes on to the
  next middleware.
\<close>

lemma has_correct_case_doubled_slash:
  "has_correct_case example_fs ''/app/static//Logo.png'' ''/app/static'' = Some False \<and>
   asset_middleware example_config example_fs (Some ''//Logo.png'') = Next"
proof -
  have f: "has_correct_case example_fs ''/app/static//Logo.png'' ''/app/static'' = Some False"
    by (simp add: has_correct_case.simps example_fs_def readdirSync_def dirname_def
        dirname_end_def basename_def)
  have p: "assets_prefix example_config = []" "files_assets example_config = ''/app/static''"
    by (simp_all add: assets_prefix_def example_config_def)
  show ?thesis
    using f p
    by (simp add: asset_middleware_def startsWith_def existsSync_def isDirectory_def
        example_fs_def)
qed

subsection \<open>The request handler\<close>

lemma String_of_500: "String_of 500 = ''500''"
  by simp

lemma GetSubstitution_plain:
  "CHR ''$'' \<notin> set r \<Longrightarrow> GetSubstitution matched before after r = r"
  by (induction matched before after r rule: GetSubstitution.induct) auto

lemma replace_from_plain:
  "CHR ''$'' \<notin> set r \<Longrightarrow> replace_from p r before s = substitute_all p r s"
  by (induction p r before s rule: replace_from.induct) (auto simp: GetSubstitution_plain)

lemma replace_all_plain:
  "CHR ''$'' \<notin> set r \<Longrightarrow> replace_all p r s = substitute_all p r s"
  by (simp add: replace_all_def replace_from_plain)

lemma error_template_plain:
  "CHR ''$'' \<notin> set msg \<Longrightarrow>
   error_template page 500 msg =
     substitute_all message_placeholder msg (substitute_all status_placeholder ''500'' page)"
  by (simp add: error_template_def replace_all_plain del: String_of.simps add: String_of_500)

lemma substitute_all_absent:
  "\<forall>j < length s. \<not> prefix p (drop j s) \<Longrightarrow> substitute_all p r s = s"
proof (induction s)
  case Nil
  then show ?case by simp
next
  case (Cons c cs)
  have a: "\<not> prefix p (c # cs)" using Cons.prems by (metis drop0 length_greater_0_conv list.simps(3))
  have b: "\<forall>j<length cs. \<not> prefix p (drop j cs)"
    using Cons.prems by (metis Suc_less_eq drop_Suc_Cons length_Cons)
  show ?case using a Cons.IH [OF b] by simp
qed

lemma substitute_all_first:
  "p \<noteq> [] \<Longrightarrow> \<forall>j < length a. \<not> prefix p (drop j (a @ p @ b)) \<Longrightarrow>
   substitute_all p r (a @ p @ b) = a @ r @ substitute_all p r b"
proof (induction a)
  case Nil
  then show ?case by (cases p) auto
next
  case (Cons c cs)
  have a: "\<not> prefix p ((c # cs) @ p @ b)"
    using Cons.prems(2) by (metis drop0 length_greater_0_conv list.simps(3))
  have b: "\<forall>j<length cs. \<not> prefix p (drop j (cs @ p @ b))"
    using Cons.prems(2) by (metis Suc_less_eq append_Cons drop_Suc_Cons length_Cons)
  show ?case using a Cons.IH [OF Cons.prems(1) b] by simp
qed

text \<open>
  Claim C1, as amended. While \<^verbatim>\<open>manifest_error\<close> is set, every request that gets as far as
  the test of it (it is not an existing, allowed static file, its path lies under the base
  and is not the service worker's) is answered with status 500 and the error page, without
  a look at the manifest and without a dispatch. The page is the template with the status
  placeholder replaced by \<^verbatim>\<open>500\<close> and then the message placeholder replaced, as
  \<^verbatim>\<open>String.prototype.replace\<close> does it; for a message without a dollar sign that is the
  message itself (or \<^verbatim>\<open>Invalid routes\<close> when there is none) at every occurrence.
\<close>

theorem manifest_error_short_circuit:
  assumes "manifest_error s = Some e" and "reaches_manifest_check cfg rw req"
  shows "handle_request cfg rw s req =
      (ErrorPage 500 (error_template (load_error_page rw) 500 (message_or_default e)), []) \<and>
    handle_request cfg rw (s\<lparr>manifest_data := md\<rparr>) req = handle_request cfg rw s req \<and>
    (CHR ''$'' \<notin> set (message_or_default e) \<longrightarrow>
       error_template (load_error_page rw) 500 (message_or_default e) =
         substitute_all message_placeholder (message_or_default e)
           (substitute_all status_placeholder ''500'' (load_error_page rw)))"
  using assms error_template_plain [of "message_or_default e" "load_error_page rw"]
  by (auto simp: handle_request_def reaches_manifest_check_def split: option.splits)


lemma example_reaches:
  "reaches_manifest_check example_config example_router (example_request ''/a/static'' ''/a/static'')"
  "reaches_manifest_check example_config example_router (example_request ''/a/static?x=1'' ''/a/static'')"
  "reaches_manifest_check example_config example_router (example_request ''/nothing/here'' ''/nothing/here'')"
  by (simp_all add: reaches_manifest_check_def example_request_def is_static_file_def
      example_router_def example_config_def example_fs_def existsSync_def startsWith_def)

theorem manifest_error_short_circuit_witness:
  "manifest_error broken_state = Some \<lparr>message = Some ''routes conflict''\<rparr> \<and>
   reaches_manifest_check example_config example_router (example_request ''/a/static'' ''/a/static'') \<and>
   handle_request example_config example_router broken_state (example_request ''/a/static'' ''/a/static'')
     = (ErrorPage 500 ''<h1>500</h1><p>routes conflict</p>'', []) \<and>
   handle_request example_config example_router (broken_state\<lparr>manifest_data := Some example_manifest\<rparr>)
       (example_request ''/a/static'' ''/a/static'')
     = handle_request example_config example_router broken_state (example_request ''/a/static'' ''/a/static'')"
proof -
  have e: "manifest_error broken_state = Some \<lparr>message = Some ''routes conflict''\<rparr>"
    by (simp add: broken_state_def initial_state_def)
  have m: "message_or_default \<lparr>message = Some ''routes conflict''\<rparr> = ''routes conflict''"
    by (simp add: message_or_default_def)
  have p: "load_error_page example_router = ''<h1>%sveltekit.status%</h1><p>%sveltekit.error.message%</p>''"
    by (simp add: example_router_def)
  have t: "substitute_all message_placeholder ''routes conflict''
      (substitute_all status_placeholder ''500''
         ''<h1>%sveltekit.status%</h1><p>%sveltekit.error.message%</p>'')
      = ''<h1>500</h1><p>routes conflict</p>''"
    by (simp add: status_placeholder_def message_placeholder_def)
  show ?thesis
    using manifest_error_short_circuit [OF e example_reaches(1), of "Some example_manifest"] e
      example_reaches(1) m p t
    by simp
qed

text \<open>
  The claim as it was stated fails on two counts: a request for the service worker is
  answered with status 200 while the error is set, and a dollar pattern in the message is
  expanded by \<^verbatim>\<open>replace\<close>, here into the placeholder itself.
\<close>

theorem manifest_error_counterexample:
  "manifest_error broken_state = Some \<lparr>message = Some ''routes conflict''\<rparr> \<and>
   handle_request example_config example_router broken_state
       (example_request ''/service-worker.js'' ''/service-worker.js'')
     = (ServiceWorker 200 (''import '' @ [CHR 0x27] @ ''/@fs/app/src/service-worker.js'' @ [CHR 0x27] @ '';''), []) \<and>
   error_template ''<p>%sveltekit.error.message%</p>'' 500 ''Unexpected $& in +page.js''
     = ''<p>Unexpected %sveltekit.error.message% in +page.js</p>''"
proof -
  have a: "manifest_error broken_state = Some \<lparr>message = Some ''routes conflict''\<rparr>"
    by (simp add: broken_state_def initial_state_def)
  have b: "handle_request example_config example_router broken_state
       (example_request ''/service-worker.js'' ''/service-worker.js'')
     = (ServiceWorker 200 (''import '' @ [CHR 0x27] @ ''/@fs/app/src/service-worker.js'' @ [CHR 0x27] @ '';''), [])"
    by (simp add: handle_request_def example_request_def is_static_file_def
      example_router_def example_config_def example_fs_def existsSync_def startsWith_def)
  have c: "error_template ''<p>%sveltekit.error.message%</p>'' 500 ''Unexpected $& in +page.js''
     = ''<p>Unexpected %sveltekit.error.message% in +page.js</p>''"
    by (simp add: error_template_def replace_all_def status_placeholder_def message_placeholder_def)
  show ?thesis using a b c by blast
qed




text \<open>
  The lookup itself is in the order of the manifest: \<^verbatim>\<open>find\<close> returns the first route
  whose pattern matches the text it is given, and none when no pattern matches.
\<close>

lemma find_route_first_in_order:
  "(find_route md u = Some r \<longleftrightarrow>
      (\<exists>i < length (routes md). r = routes md ! i \<and> pattern r u \<and>
         (\<forall>j < i. \<not> pattern (routes md ! j) u))) \<and>
   (find_route md u = None \<longleftrightarrow> (\<forall>r \<in> set (routes md). \<not> pattern r u))"
  unfolding find_route_def find_Some_iff find_None_iff by auto

text \<open>
  Claim C5. The claim has the first route, in the order of the manifest, whose pattern
  matches the decoded path of the request handle it. The handler computes that path and
  tests the base path and the service worker on it, but gives \<^verbatim>\<open>req.url\<close>, the original
  URL with its query string, to the patterns. For \<^verbatim>\<open>GET /a/static?x=1\<close> the decoded path is
  \<^verbatim>\<open>/a/static\<close>, whose first matching route declares the environment \<^verbatim>\<open>edge\<close>, and the
  same path without the query string is dispatched there; with the query string the
  handler takes the second route and dispatches to \<^verbatim>\<open>ssr\<close>.
\<close>

theorem route_lookup_on_raw_url:
  "manifest_error serving_state = None \<and>
   manifest_data serving_state = Some example_manifest \<and>
   decoded (example_request ''/a/static?x=1'' ''/a/static'') = Some ''/a/static'' \<and>
   find_route example_manifest ''/a/static'' = Some (routes example_manifest ! 0) \<and>
   environment (routes example_manifest ! 0) = Some ''edge'' \<and>
   handle_request example_config example_router serving_state
       (example_request ''/a/static'' ''/a/static'')
     = (SetResponse \<lparr>status = 200, body = ''from the edge''\<rparr>, [''edge'']) \<and>
   find_route example_manifest (url (example_request ''/a/static?x=1'' ''/a/static''))
     = Some (routes example_manifest ! 1) \<and>
   handle_request example_config example_router serving_state
       (example_request ''/a/static?x=1'' ''/a/static'')
     = (SetResponse \<lparr>status = 404, body = ''Not Found''\<rparr>, [''ssr''])"
  by (simp add: serving_state_def initial_state_def example_request_def find_route_def
      example_manifest_def handle_request_def dispatch_route_def environment_name_def
      is_static_file_def example_router_def example_config_def example_fs_def existsSync_def
      startsWith_def Let_def)





end
